theory Spec2Isabelle
  imports Main "HOL-Library.Multiset" "HOL-Library.Char_ord" "HOL-Library.List_Lexorder"
    "HOL-Library.Log_Nat"
begin

section \<open>The vocabulary store\<close>

text \<open>
  The store is the single SQLite table \<open>words\<close> of \<open>db.ts\<close>:
  \<^verbatim>\<open>
  CREATE TABLE IF NOT EXISTS words (
    english TEXT PRIMARY KEY,
    cantonese_jyutping TEXT NOT NULL,
    last_practiced_date DATE NOT NULL,
    proficiency_level INTEGER DEFAULT 1 CHECK(proficiency_level >= 1))
  \<close>
  A row is a record; the nullable column \<open>proficiency_level\<close> is an \<open>int option\<close>
  (\<open>None\<close> is SQL NULL). The table is the list of its rows in the order of their rowids,
  which is the order of insertion: a query that scans the table meets them in list order,
  \<open>.get\<close> returning the first row that satisfies the WHERE clause and \<open>.all\<close> all of them.
  A query that scans the index of the primary key instead meets them in the order of
  their keys (\<open>index_order\<close> below). Strings are lists of characters; the functions on
  them below are those of JavaScript and SQLite on ASCII text (characters from 128 on are
  left alone by \<open>toLowerCase_char\<close> and are never white space).
\<close>

record word =
  english :: string
  cantonese_jyutping :: string
  last_practiced_date :: string
  proficiency_level :: "int option"

type_synonym db = "word list"

text \<open>The rows tools hand back: \<open>proficiency_level ?? 1\<close> makes the level a number.\<close>

record word_out =
  out_english :: string
  out_cantonese_jyutping :: string
  out_last_practiced_date :: string
  out_proficiency_level :: int

text \<open>
  A level read from the store arrives in JavaScript as a number, an IEEE double. On whole
  numbers that is the identity up to \<open>2 ^ 53\<close> in absolute value; a larger one is rounded
  to 53 significant bits, a tie going to the even neighbour. \<open>to_number\<close> is this rounding
  on the integers, and the result of every addition the code makes goes through it.
\<close>

definition to_number :: "int \<Rightarrow> int" where
  "to_number n =
     (if \<bar>n\<bar> \<le> 2 ^ 53 then n
      else let u = 2 ^ nat (bitlen \<bar>n\<bar> - 53);
               q = \<bar>n\<bar> div u;
               r = \<bar>n\<bar> mod u;
               m = (if u < 2 * r \<or> (2 * r = u \<and> odd q) then q + 1 else q)
           in sgn n * m * u)"

definition level_or_1 :: "int option \<Rightarrow> int" where
  "level_or_1 l = (case l of None \<Rightarrow> 1 | Some n \<Rightarrow> to_number n)"

definition to_out :: "word \<Rightarrow> word_out" where
  "to_out w = \<lparr> out_english = english w,
               out_cantonese_jyutping = cantonese_jyutping w,
               out_last_practiced_date = last_practiced_date w,
               out_proficiency_level = level_or_1 (proficiency_level w) \<rparr>"

text \<open>\<open>SELECT ... FROM words WHERE english = ?\<close> with \<open>.get\<close>: the comparison is byte-exact
  (the column has the default BINARY collation).\<close>

definition getWord :: "db \<Rightarrow> string \<Rightarrow> word option" where
  "getWord d k = find (\<lambda>w. english w = k) d"

text \<open>The CHECK constraint of the schema on one row (NULL passes a CHECK).\<close>

definition check_level :: "int option \<Rightarrow> bool" where
  "check_level l = (case l of None \<Rightarrow> True | Some n \<Rightarrow> 1 \<le> n)"

text \<open>
  The primary key has an index of its own, holding the keys in the order of the BINARY
  collation: byte by byte, a proper prefix first. A query that needs no other column than
  \<open>english\<close> and cannot look its WHERE clause up in the index is answered by scanning this
  index from its start, so it meets the rows in the order of their keys.
\<close>

definition index_order :: "db \<Rightarrow> db" where
  "index_order d = sort_key english d"

section \<open>String functions of JavaScript and SQLite\<close>

text \<open>White space of JavaScript's \<open>\s\<close> and \<open>trim\<close> in the ASCII range: tab, line feed,
  vertical tab, form feed, carriage return and space.\<close>

definition is_space :: "char \<Rightarrow> bool" where
  "is_space c \<longleftrightarrow> c = CHR 0x09 \<or> c = CHR 0x0A \<or> c = CHR 0x0B \<or> c = CHR 0x0C
     \<or> c = CHR 0x0D \<or> c = CHR '' ''"

definition toLowerCase_char :: "char \<Rightarrow> char" where
  "toLowerCase_char c =
     (case map_of (zip ''ABCDEFGHIJKLMNOPQRSTUVWXYZ'' ''abcdefghijklmnopqrstuvwxyz'') c of
        None \<Rightarrow> c | Some l \<Rightarrow> l)"

definition toLowerCase :: "string \<Rightarrow> string" where
  "toLowerCase s = map toLowerCase_char s"

definition trim :: "string \<Rightarrow> string" where
  "trim s = rev (dropWhile is_space (rev (dropWhile is_space s)))"

text \<open>
  \<open>.replace(/\s*\/\s*/g, '/')\<close>: scanning from the left, a match starts at a position
  when the run of white space from there is followed by a slash (the greedy \<open>\s*\<close> gains
  nothing by giving characters back); it takes the white space after the slash as well, and
  the scan goes on behind it. Where no match starts, the character is copied.
\<close>

function replace_slash :: "string \<Rightarrow> string" where
  "replace_slash [] = []"
| "replace_slash (c # cs) =
     (case dropWhile is_space (c # cs) of
        [] \<Rightarrow> c # replace_slash cs
      | d # r \<Rightarrow> if d = CHR ''/'' then CHR ''/'' # replace_slash (dropWhile is_space r)
                else c # replace_slash cs)"
  by pat_completeness auto
termination
proof (relation "measure length")
  show "wf (measure length)" by simp
next
  fix c :: char and cs
  show "(cs, c # cs) \<in> measure length" by simp
next
  fix c :: char and cs d r
  assume "dropWhile is_space (c # cs) = d # r"
  then have "length (d # r) \<le> length (c # cs)"
    by (metis length_dropWhile_le)
  moreover have "length (dropWhile is_space r) \<le> length r"
    by (rule length_dropWhile_le)
  ultimately show "(dropWhile is_space r, c # cs) \<in> measure length" by simp
next
  fix c :: char and cs d r
  show "(cs, c # cs) \<in> measure length" by simp
qed

text \<open>\<open>.replace(/\s+/g, ' ')\<close>: every maximal run of white space becomes one space.\<close>

function collapse_spaces :: "string \<Rightarrow> string" where
  "collapse_spaces [] = []"
| "collapse_spaces (c # cs) =
     (if is_space c then CHR '' '' # collapse_spaces (dropWhile is_space cs)
      else c # collapse_spaces cs)"
  by pat_completeness auto
termination
proof (relation "measure length")
  show "wf (measure length)" by simp
next
  fix c :: char and cs
  have "length (dropWhile is_space cs) \<le> length cs"
    by (rule length_dropWhile_le)
  then show "(dropWhile is_space cs, c # cs) \<in> measure length" by simp
next
  fix c :: char and cs
  show "(cs, c # cs) \<in> measure length" by simp
qed

text \<open>\<open>.split('/')\<close>: the pieces between slashes, empty pieces included; the result is
  never the empty list.\<close>

fun split_slash :: "string \<Rightarrow> string list" where
  "split_slash [] = [[]]"
| "split_slash (c # cs) =
     (if c = CHR ''/'' then [] # split_slash cs
      else (case split_slash cs of [] \<Rightarrow> [[c]] | p # ps \<Rightarrow> (c # p) # ps))"

text \<open>SQLite's \<open>TRIM(X)\<close> removes spaces only, and \<open>LOWER(X)\<close> folds ASCII letters.\<close>

definition sql_trim :: "string \<Rightarrow> string" where
  "sql_trim s = rev (dropWhile (\<lambda>c. c = CHR '' '') (rev (dropWhile (\<lambda>c. c = CHR '' '') s)))"

definition sql_lower :: "string \<Rightarrow> string" where
  "sql_lower s = map toLowerCase_char s"

section \<open>The word matcher (\<open>toolUtils.ts\<close>)\<close>

text \<open>\<open>normalizeWord\<close>: the falsy (empty) string gives the empty string, anything else goes
  through trim, lower case, the two replacements and trim.\<close>

definition normalizeWord :: "string \<Rightarrow> string" where
  "normalizeWord word =
     (if word = [] then []
      else trim (collapse_spaces (replace_slash (toLowerCase (trim word)))))"

text \<open>The WHERE clauses of the two exact queries. The first query selects \<open>english\<close>
  by a test on \<open>english\<close> alone and scans the index of the primary key; the second reads
  \<open>cantonese_jyutping\<close> and scans the table, as does the query of the loop.\<close>

definition exact_english :: "string \<Rightarrow> word \<Rightarrow> bool" where
  "exact_english searchTerm w \<longleftrightarrow>
     sql_lower (sql_trim (english w)) = sql_lower (sql_trim searchTerm)"

definition exact_cantonese :: "string \<Rightarrow> word \<Rightarrow> bool" where
  "exact_cantonese searchTerm w \<longleftrightarrow>
     sql_lower (sql_trim (cantonese_jyutping w)) = sql_lower (sql_trim searchTerm)"

text \<open>The tests of the loop body on one row: the normalized English, the normalized
  Cantonese as a whole, then each trimmed piece of the normalized Cantonese.\<close>

definition jyutpingParts :: "word \<Rightarrow> string list" where
  "jyutpingParts w = map trim (split_slash (normalizeWord (cantonese_jyutping w)))"

definition normalized_match :: "string \<Rightarrow> word \<Rightarrow> bool" where
  "normalized_match normalizedSearch w \<longleftrightarrow>
     normalizeWord (english w) = normalizedSearch
     \<or> normalizeWord (cantonese_jyutping w) = normalizedSearch"

definition part_match :: "string \<Rightarrow> word \<Rightarrow> bool" where
  "part_match normalizedSearch w \<longleftrightarrow> normalizedSearch \<in> set (jyutpingParts w)"

text \<open>The \<open>for (const word of allWords)\<close> loop.\<close>

fun fuzzy_scan :: "string \<Rightarrow> db \<Rightarrow> string option" where
  "fuzzy_scan normalizedSearch [] = None"
| "fuzzy_scan normalizedSearch (w # ws) =
     (if normalizeWord (english w) = normalizedSearch then Some (english w)
      else if normalizeWord (cantonese_jyutping w) = normalizedSearch then Some (english w)
      else if part_match normalizedSearch w then Some (english w)
      else fuzzy_scan normalizedSearch ws)"

definition findWordInDatabase :: "db \<Rightarrow> string \<Rightarrow> string option" where
  "findWordInDatabase d searchTerm =
     (if searchTerm = [] then None
      else let normalizedSearch = normalizeWord searchTerm in
        if normalizedSearch = [] then None
        else (case find (exact_english searchTerm) (index_order d) of
                Some w \<Rightarrow> Some (english w)
              | None \<Rightarrow>
                 (case find (exact_cantonese searchTerm) d of
                    Some w \<Rightarrow> Some (english w)
                  | None \<Rightarrow> fuzzy_scan normalizedSearch d)))"

section \<open>The progress updater (\<open>updateWordProgress.ts\<close>)\<close>

text \<open>
  One element of the \<open>words\<close> argument: both texts are optional in the schema. The store is
  taken as open (\<open>getDb\<close> succeeded) and today's date is a parameter, since
  \<open>getTodayDate\<close> reads the clock.
\<close>

record entry =
  in_english :: "string option"
  in_cantonese_jyutping :: "string option"
  success :: bool

text \<open>\<open>english || cantonese_jyutping\<close>: the English text unless it is missing or empty.\<close>

definition searchTerm_of :: "entry \<Rightarrow> string option" where
  "searchTerm_of e =
     (case in_english e of
        None \<Rightarrow> in_cantonese_jyutping e
      | Some s \<Rightarrow> if s = [] then in_cantonese_jyutping e else Some s)"

text \<open>The reasons pushed to \<open>failedWords\<close>, one constructor for each message of the source
  with the texts the message is built from; \<open>UpdateError\<close> is the \<open>catch\<close> of the loop
  body.\<close>

datatype reason =
    InvalidWord
  | WordNotFound string
  | RetrievalFailed string string
  | UpdateError

record failed_word =
  failed_english :: string
  failed_reason :: reason

datatype outcome = Updated word_out | Failed failed_word

text \<open>\<open>UPDATE words SET last_practiced_date = ?, proficiency_level = ? WHERE english = ?\<close>.
  SQLite raises a constraint error, and changes nothing, when a row it would write fails
  the CHECK of the schema: \<open>None\<close>.\<close>

definition set_progress :: "string \<Rightarrow> int \<Rightarrow> string \<Rightarrow> word \<Rightarrow> word" where
  "set_progress today newProficiency k w =
     (if english w = k
      then w\<lparr> last_practiced_date := today, proficiency_level := Some newProficiency \<rparr>
      else w)"

definition run_update :: "db \<Rightarrow> string \<Rightarrow> int \<Rightarrow> string \<Rightarrow> db option" where
  "run_update d today newProficiency k =
     (if k \<in> set (map english d) \<and> \<not> check_level (Some newProficiency) then None
      else Some (map (set_progress today newProficiency k) d))"

text \<open>\<open>success ? currentProficiency + 1 : Math.max(currentProficiency - 1, 1)\<close>, on
  numbers.\<close>

definition newProficiency_of :: "bool \<Rightarrow> int \<Rightarrow> int" where
  "newProficiency_of ok currentProficiency =
     (if ok then to_number (currentProficiency + 1)
      else max (to_number (currentProficiency - 1)) 1)"

text \<open>The body of \<open>for (const { english, cantonese_jyutping, success } of words)\<close>. The test
  \<open>!actualEnglish\<close> is true of \<open>null\<close> and of the empty string.\<close>

definition process_entry :: "string \<Rightarrow> db \<Rightarrow> entry \<Rightarrow> db \<times> outcome" where
  "process_entry today d e =
     (case searchTerm_of e of
        None \<Rightarrow> (d, Failed \<lparr> failed_english = ''undefined'', failed_reason = InvalidWord \<rparr>)
      | Some searchTerm \<Rightarrow>
          if searchTerm = []
          then (d, Failed \<lparr> failed_english = ''undefined'', failed_reason = InvalidWord \<rparr>)
          else
           (case findWordInDatabase d searchTerm of
              None \<Rightarrow>
                (d, Failed \<lparr> failed_english = searchTerm,
                             failed_reason = WordNotFound searchTerm \<rparr>)
            | Some actualEnglish \<Rightarrow>
                if actualEnglish = []
                then (d, Failed \<lparr> failed_english = searchTerm,
                                  failed_reason = WordNotFound searchTerm \<rparr>)
                else
                 (case getWord d actualEnglish of
                    None \<Rightarrow>
                      (d, Failed \<lparr> failed_english = searchTerm,
                                   failed_reason = RetrievalFailed searchTerm actualEnglish \<rparr>)
                  | Some currentWord \<Rightarrow>
                      let currentProficiency = level_or_1 (proficiency_level currentWord);
                          newProficiency = newProficiency_of (success e) currentProficiency
                      in (case run_update d today newProficiency actualEnglish of
                            None \<Rightarrow>
                              (d, Failed \<lparr> failed_english = searchTerm,
                                           failed_reason = UpdateError \<rparr>)
                          | Some d' \<Rightarrow>
                             (case getWord d' actualEnglish of
                                None \<Rightarrow>
                                  (d', Failed \<lparr> failed_english = searchTerm,
                                                failed_reason = UpdateError \<rparr>)
                              | Some updatedWord \<Rightarrow> (d', Updated (to_out updatedWord)))))))"

text \<open>The loop: the store is threaded through the entries, and each outcome is pushed to
  \<open>updatedWords\<close> or to \<open>failedWords\<close>.\<close>

fun process_words :: "string \<Rightarrow> db \<Rightarrow> entry list \<Rightarrow> db \<times> word_out list \<times> failed_word list" where
  "process_words today d [] = (d, [], [])"
| "process_words today d (e # es) =
     (case process_entry today d e of
        (d', out) \<Rightarrow>
          (case process_words today d' es of
             (d'', us, fs) \<Rightarrow>
               (case out of
                  Updated u \<Rightarrow> (d'', u # us, fs)
                | Failed f \<Rightarrow> (d'', us, f # fs))))"

text \<open>The object returned; \<open>failedWords\<close> is \<open>undefined\<close> (\<open>None\<close>) when nothing failed in a
  batch that is not empty. The \<open>message\<close> text repeats the two counts and is left out.\<close>

record update_result =
  result_success :: bool
  updatedWords :: "word_out list"
  failedWords :: "failed_word list option"

definition updateWordProgress :: "string \<Rightarrow> db \<Rightarrow> entry list \<Rightarrow> db \<times> update_result" where
  "updateWordProgress today d words =
     (if length words = 0
      then (d, \<lparr> result_success = False, updatedWords = [], failedWords = Some [] \<rparr>)
      else (case process_words today d words of
              (d', us, fs) \<Rightarrow>
                (d', \<lparr> result_success = (length us > 0),
                       updatedWords = us,
                       failedWords = (if length fs > 0 then Some fs else None) \<rparr>)))"

section \<open>The tools of \<open>oldSystemPrompt.ts\<close>: add and remove\<close>

text \<open>
  \<open>addNewWord\<close> runs \<open>INSERT INTO words VALUES (?, ?, ?, 1)\<close>. The primary key is compared
  byte by byte; on a key that is present SQLite raises \<open>SQLITE_CONSTRAINT_PRIMARYKEY\<close>,
  which the tool catches and turns into a result object with \<open>success: false\<close>. The two
  texts are strings by the tool's schema, so NOT NULL cannot fail, and the level 1 passes
  the CHECK. A new row gets the next rowid and goes to the end of the table.
\<close>

datatype add_result = Added word_out | AlreadyExists string

definition addNewWord :: "string \<Rightarrow> db \<Rightarrow> string \<Rightarrow> string \<Rightarrow> db \<times> add_result" where
  "addNewWord today d eng cj =
     (if eng \<in> set (map english d) then (d, AlreadyExists eng)
      else (d @ [\<lparr> english = eng, cantonese_jyutping = cj,
                   last_practiced_date = today, proficiency_level = Some 1 \<rparr>],
            Added \<lparr> out_english = eng, out_cantonese_jyutping = cj,
                    out_last_practiced_date = today, out_proficiency_level = 1 \<rparr>))"

text \<open>This file has its own copies of \<open>normalizeWord\<close> and \<open>findWordInDatabase\<close>, which
  \<open>removeWord\<close> calls: no test for an empty text, and no splitting at slashes.\<close>

definition normalizeWord_old :: "string \<Rightarrow> string" where
  "normalizeWord_old word = trim (collapse_spaces (replace_slash (toLowerCase (trim word))))"

fun fuzzy_scan_old :: "string \<Rightarrow> db \<Rightarrow> string option" where
  "fuzzy_scan_old normalizedSearch [] = None"
| "fuzzy_scan_old normalizedSearch (w # ws) =
     (if normalizeWord_old (english w) = normalizedSearch then Some (english w)
      else if normalizeWord_old (cantonese_jyutping w) = normalizedSearch then Some (english w)
      else fuzzy_scan_old normalizedSearch ws)"

definition findWordInDatabase_old :: "db \<Rightarrow> string \<Rightarrow> string option" where
  "findWordInDatabase_old d searchTerm =
     (let normalizedSearch = normalizeWord_old searchTerm in
      case find (exact_english searchTerm) (index_order d) of
        Some w \<Rightarrow> Some (english w)
      | None \<Rightarrow>
         (case find (exact_cantonese searchTerm) d of
            Some w \<Rightarrow> Some (english w)
          | None \<Rightarrow> fuzzy_scan_old normalizedSearch d))"

datatype remove_result = Removed string string | RemoveNotFound | RemoveNoData

definition removeWord :: "db \<Rightarrow> string \<Rightarrow> db \<times> remove_result" where
  "removeWord d eng =
     (case findWordInDatabase_old d eng of
        None \<Rightarrow> (d, RemoveNotFound)
      | Some actualEnglish \<Rightarrow>
          if actualEnglish = [] then (d, RemoveNotFound)
          else (case getWord d actualEnglish of
                  None \<Rightarrow> (d, RemoveNoData)
                | Some existingWord \<Rightarrow>
                    (filter (\<lambda>w. english w \<noteq> actualEnglish) d,
                     Removed (english existingWord) (cantonese_jyutping existingWord))))"

section \<open>The random sample (\<open>getRandomWords.ts\<close>)\<close>

text \<open>
  \<open>SELECT ... FROM words ORDER BY RANDOM() LIMIT 50\<close>: SQLite evaluates \<open>RANDOM()\<close> once for
  each row, sorts the rows by these numbers and keeps the first 50. The numbers drawn are
  the parameter \<open>rand\<close>, the number drawn for the \<open>i\<close>-th row of the scan being \<open>rand i\<close>.
\<close>

record random_result =
  words :: "word_out list"
  count :: nat

definition order_by_random :: "(nat \<Rightarrow> int) \<Rightarrow> db \<Rightarrow> db" where
  "order_by_random rand d = map snd (sort_key fst (zip (map rand [0..<length d]) d))"

definition getRandomWords :: "(nat \<Rightarrow> int) \<Rightarrow> db \<Rightarrow> random_result" where
  "getRandomWords rand d =
     (let ws = take 50 (order_by_random rand d)
      in \<lparr> words = map to_out ws, count = length ws \<rparr>)"

section \<open>Notions the properties are stated with\<close>

text \<open>The list of failures of a result, \<open>undefined\<close> read as the empty list.\<close>

definition failed_list :: "update_result \<Rightarrow> failed_word list" where
  "failed_list r = (case failedWords r of None \<Rightarrow> [] | Some fs \<Rightarrow> fs)"

text \<open>An entry that cannot be resolved against a store: it carries no query text, or the
  matcher finds no word for it. \<open>failure_of\<close> is the record the loop pushes for it.\<close>

definition unresolved :: "db \<Rightarrow> entry \<Rightarrow> bool" where
  "unresolved d e \<longleftrightarrow>
     (case searchTerm_of e of None \<Rightarrow> True | Some q \<Rightarrow> findWordInDatabase d q = None)"

definition failure_of :: "entry \<Rightarrow> failed_word" where
  "failure_of e =
     (case searchTerm_of e of
        None \<Rightarrow> \<lparr> failed_english = ''undefined'', failed_reason = InvalidWord \<rparr>
      | Some q \<Rightarrow> if q = [] then \<lparr> failed_english = ''undefined'', failed_reason = InvalidWord \<rparr>
                  else \<lparr> failed_english = q, failed_reason = WordNotFound q \<rparr>)"

text \<open>A row whose level is a number not below 1.\<close>

definition level_ok :: "word \<Rightarrow> bool" where
  "level_ok w = (case proficiency_level w of None \<Rightarrow> False | Some l \<Rightarrow> 1 \<le> l)"

text \<open>The stores the tools can produce from the empty table: by adding a word, by a batch
  of progress updates, by removing a word.\<close>

inductive reachable :: "db \<Rightarrow> bool" where
  reachable_empty: "reachable []"
| reachable_add: "reachable d \<Longrightarrow> reachable (fst (addNewWord today d eng cj))"
| reachable_update: "reachable d \<Longrightarrow> reachable (fst (updateWordProgress today d ws))"
| reachable_remove: "reachable d \<Longrightarrow> reachable (fst (removeWord d eng))"

text \<open>The four tests of the matcher on one row, and the two of the loop taken together.\<close>

definition matches_query :: "string \<Rightarrow> word \<Rightarrow> bool" where
  "matches_query q w \<longleftrightarrow>
     exact_english q w \<or> exact_cantonese q w
     \<or> normalized_match (normalizeWord q) w \<or> part_match (normalizeWord q) w"

definition fuzzy_match :: "string \<Rightarrow> word \<Rightarrow> bool" where
  "fuzzy_match normalizedSearch w \<longleftrightarrow>
     normalized_match normalizedSearch w \<or> part_match normalizedSearch w"

text \<open>The row \<open>addNewWord\<close> inserts.\<close>

definition new_row :: "string \<Rightarrow> string \<Rightarrow> string \<Rightarrow> word" where
  "new_row today eng cj = \<lparr> english = eng, cantonese_jyutping = cj,
                            last_practiced_date = today, proficiency_level = Some 1 \<rparr>"

section \<open>Example stores and entries\<close>

text \<open>Concrete rows and batch entries, used where a property is evaluated.\<close>

definition cat_row :: word where
  "cat_row = \<lparr> english = ''cat'', cantonese_jyutping = ''maau1'',
               last_practiced_date = ''2025-01-01'', proficiency_level = Some 1 \<rparr>"

definition maau1_entry :: "bool \<Rightarrow> entry" where
  "maau1_entry ok = \<lparr> in_english = None, in_cantonese_jyutping = Some ''maau1'', success = ok \<rparr>"

text \<open>A row whose key is the empty string: \<open>addNewWord\<close> inserts it when asked to.\<close>

definition nameless_row :: word where
  "nameless_row = \<lparr> english = [], cantonese_jyutping = ''maau1'',
                    last_practiced_date = ''2025-01-01'', proficiency_level = Some 1 \<rparr>"

text \<open>The word cat after a failed attempt on 2025-02-02: still at level 1.\<close>

definition cat_row_floor :: word where
  "cat_row_floor = cat_row\<lparr> last_practiced_date := ''2025-02-02'' \<rparr>"

definition dog_row :: word where
  "dog_row = \<lparr> english = ''dog'', cantonese_jyutping = ''gau2'',
               last_practiced_date = ''2025-01-03'', proficiency_level = Some 4 \<rparr>"

text \<open>A second word whose key differs from dog in the case of a letter.\<close>

definition capital_dog_row :: word where
  "capital_dog_row = \<lparr> english = ''Dog'', cantonese_jyutping = ''daai6 gau2'',
                       last_practiced_date = ''2025-01-05'', proficiency_level = Some 1 \<rparr>"

definition english_entry :: "string \<Rightarrow> bool \<Rightarrow> entry" where
  "english_entry q ok = \<lparr> in_english = Some q, in_cantonese_jyutping = None, success = ok \<rparr>"

definition three_entries :: "entry list" where
  "three_entries = [english_entry ''cat'' True, english_entry ''zebra'' True,
                    english_entry ''Dog '' False]"

definition cat_row2 :: word where
  "cat_row2 = cat_row\<lparr> last_practiced_date := ''2025-02-02'', proficiency_level := Some 2 \<rparr>"

definition dog_row3 :: word where
  "dog_row3 = dog_row\<lparr> last_practiced_date := ''2025-02-02'', proficiency_level := Some 3 \<rparr>"

definition book_row :: word where
  "book_row = \<lparr> english = ''book'', cantonese_jyutping = ''syu1'',
                last_practiced_date = ''2025-01-01'', proficiency_level = Some 1 \<rparr>"

definition homework_row :: word where
  "homework_row = \<lparr> english = ''homework'', cantonese_jyutping = ''gung1 fo3 / syu1'',
                    last_practiced_date = ''2025-01-01'', proficiency_level = Some 1 \<rparr>"

definition exercise_book_row :: word where
  "exercise_book_row = \<lparr> english = ''exercise book'',
                         cantonese_jyutping = ''sik6 coeng2 / zaap6 fo3 pou3'',
                         last_practiced_date = ''2025-01-01'', proficiency_level = Some 1 \<rparr>"

definition meal_row :: word where
  "meal_row = \<lparr> english = ''have a meal'', cantonese_jyutping = ''sik6 faan6'',
                last_practiced_date = ''2025-01-01'', proficiency_level = Some 1 \<rparr>"

definition eat_row :: word where
  "eat_row = \<lparr> english = ''eat'', cantonese_jyutping = ''sik6 / sik6 faan6'',
               last_practiced_date = ''2025-01-01'', proficiency_level = Some 1 \<rparr>"

text \<open>A store of three words and the numbers \<open>RANDOM()\<close> gives for its rows.\<close>

definition three_rows :: db where
  "three_rows = [cat_row, dog_row, book_row]"

definition some_numbers :: "nat \<Rightarrow> int" where
  "some_numbers i = (if i = 0 then 5 else if i = 1 then - 3 else 4)"

section \<open>Evaluation rules and lemmas on the store\<close>

text \<open>\<open>toLowerCase_char\<close> on the letters, the digits, the space and the slash, for evaluation.\<close>

lemma toLowerCase_char_simps:
  "toLowerCase_char CHR ''A'' = CHR ''a''" "toLowerCase_char CHR ''B'' = CHR ''b''"
  "toLowerCase_char CHR ''C'' = CHR ''c''" "toLowerCase_char CHR ''D'' = CHR ''d''"
  "toLowerCase_char CHR ''E'' = CHR ''e''" "toLowerCase_char CHR ''F'' = CHR ''f''"
  "toLowerCase_char CHR ''G'' = CHR ''g''" "toLowerCase_char CHR ''H'' = CHR ''h''"
  "toLowerCase_char CHR ''I'' = CHR ''i''" "toLowerCase_char CHR ''J'' = CHR ''j''"
  "toLowerCase_char CHR ''K'' = CHR ''k''" "toLowerCase_char CHR ''L'' = CHR ''l''"
  "toLowerCase_char CHR ''M'' = CHR ''m''" "toLowerCase_char CHR ''N'' = CHR ''n''"
  "toLowerCase_char CHR ''O'' = CHR ''o''" "toLowerCase_char CHR ''P'' = CHR ''p''"
  "toLowerCase_char CHR ''Q'' = CHR ''q''" "toLowerCase_char CHR ''R'' = CHR ''r''"
  "toLowerCase_char CHR ''S'' = CHR ''s''" "toLowerCase_char CHR ''T'' = CHR ''t''"
  "toLowerCase_char CHR ''U'' = CHR ''u''" "toLowerCase_char CHR ''V'' = CHR ''v''"
  "toLowerCase_char CHR ''W'' = CHR ''w''" "toLowerCase_char CHR ''X'' = CHR ''x''"
  "toLowerCase_char CHR ''Y'' = CHR ''y''" "toLowerCase_char CHR ''Z'' = CHR ''z''"
  "toLowerCase_char CHR ''a'' = CHR ''a''" "toLowerCase_char CHR ''b'' = CHR ''b''"
  "toLowerCase_char CHR ''c'' = CHR ''c''" "toLowerCase_char CHR ''d'' = CHR ''d''"
  "toLowerCase_char CHR ''e'' = CHR ''e''" "toLowerCase_char CHR ''f'' = CHR ''f''"
  "toLowerCase_char CHR ''g'' = CHR ''g''" "toLowerCase_char CHR ''h'' = CHR ''h''"
  "toLowerCase_char CHR ''i'' = CHR ''i''" "toLowerCase_char CHR ''j'' = CHR ''j''"
  "toLowerCase_char CHR ''k'' = CHR ''k''" "toLowerCase_char CHR ''l'' = CHR ''l''"
  "toLowerCase_char CHR ''m'' = CHR ''m''" "toLowerCase_char CHR ''n'' = CHR ''n''"
  "toLowerCase_char CHR ''o'' = CHR ''o''" "toLowerCase_char CHR ''p'' = CHR ''p''"
  "toLowerCase_char CHR ''q'' = CHR ''q''" "toLowerCase_char CHR ''r'' = CHR ''r''"
  "toLowerCase_char CHR ''s'' = CHR ''s''" "toLowerCase_char CHR ''t'' = CHR ''t''"
  "toLowerCase_char CHR ''u'' = CHR ''u''" "toLowerCase_char CHR ''v'' = CHR ''v''"
  "toLowerCase_char CHR ''w'' = CHR ''w''" "toLowerCase_char CHR ''x'' = CHR ''x''"
  "toLowerCase_char CHR ''y'' = CHR ''y''" "toLowerCase_char CHR ''z'' = CHR ''z''"
  "toLowerCase_char CHR ''0'' = CHR ''0''" "toLowerCase_char CHR ''1'' = CHR ''1''"
  "toLowerCase_char CHR ''2'' = CHR ''2''" "toLowerCase_char CHR ''3'' = CHR ''3''"
  "toLowerCase_char CHR ''4'' = CHR ''4''" "toLowerCase_char CHR ''5'' = CHR ''5''"
  "toLowerCase_char CHR ''6'' = CHR ''6''" "toLowerCase_char CHR ''7'' = CHR ''7''"
  "toLowerCase_char CHR ''8'' = CHR ''8''" "toLowerCase_char CHR ''9'' = CHR ''9''"
  "toLowerCase_char CHR '' '' = CHR '' ''" "toLowerCase_char CHR ''/'' = CHR ''/''"
  by (simp_all add: toLowerCase_char_def)

lemmas string_defs = normalizeWord_def normalizeWord_old_def trim_def toLowerCase_def
  toLowerCase_char_simps is_space_def sql_trim_def sql_lower_def
text \<open>The rounding of numbers leaves the whole numbers up to \<open>2 ^ 53\<close> alone.\<close>

lemma to_number_small: "\<bar>n\<bar> \<le> 2 ^ 53 \<Longrightarrow> to_number n = n"
  by (simp add: to_number_def)

lemma newProficiency_small:
  assumes "1 \<le> c" "c < 2 ^ 53"
  shows "newProficiency_of ok c = (if ok then c + 1 else max (c - 1) 1)"
    and "1 \<le> newProficiency_of ok c"
proof -
  have "to_number (c + 1) = c + 1" "to_number (c - 1) = c - 1"
    using assms by (simp_all add: to_number_small)
  then show "newProficiency_of ok c = (if ok then c + 1 else max (c - 1) 1)"
    by (simp add: newProficiency_of_def)
  with assms show "1 \<le> newProficiency_of ok c" by simp
qed

text \<open>The scan of the index meets the same rows as the scan of the table; what it finds
  first is the first, in the order of the keys, of the rows that pass the test.\<close>

lemma set_index_order [simp]: "set (index_order d) = set d"
  by (simp add: index_order_def)

lemma find_filter: "find P xs = (case filter P xs of [] \<Rightarrow> None | x # _ \<Rightarrow> Some x)"
  by (induction xs) auto

lemma find_index_order:
  "find P (index_order d) = (case sort_key english (filter P d) of [] \<Rightarrow> None | w # _ \<Rightarrow> Some w)"
  by (simp add: index_order_def find_filter [of P "sort_key english d"] filter_sort)

lemma find_Some_set: "find P xs = Some x \<Longrightarrow> x \<in> set xs \<and> P x"
  by (induction xs) (auto split: if_splits)

lemma find_None_set: "find P xs = None \<longleftrightarrow> (\<forall>x\<in>set xs. \<not> P x)"
  by (induction xs) auto

lemma find_index_order_None: "find P (index_order d) = None \<longleftrightarrow> find P d = None"
  by (simp add: find_None_set)

lemmas matcher_defs = findWordInDatabase_def findWordInDatabase_old_def find_index_order
  exact_english_def exact_cantonese_def part_match_def jyutpingParts_def

lemma getWord_Some_english: "getWord d k = Some w \<Longrightarrow> english w = k \<and> w \<in> set d"
  unfolding getWord_def by (induction d) (auto split: if_splits)

lemma getWord_None_iff: "getWord d k = None \<longleftrightarrow> k \<notin> set (map english d)"
  unfolding getWord_def by (induction d) auto

lemma find_english_in: "find P d = Some w \<Longrightarrow> english w \<in> set (map english d)"
  by (induction d) (auto split: if_splits)

lemma fuzzy_scan_in: "fuzzy_scan ns d = Some k \<Longrightarrow> k \<in> set (map english d)"
  by (induction d) (auto split: if_splits)

lemma findWordInDatabase_in:
  "findWordInDatabase d q = Some k \<Longrightarrow> k \<in> set (map english d)"
  unfolding findWordInDatabase_def
  by (auto simp: Let_def split: if_splits option.splits
        dest: find_english_in fuzzy_scan_in dest!: find_Some_set)

text \<open>A row-wise change that keeps the two text columns does not change what the matcher
  answers.\<close>

lemma find_map_texts:
  assumes "\<And>w. P (f w) = P w"
  shows "find P (map f d) = map_option f (find P d)"
  using assms by (induction d) auto

lemma fuzzy_scan_map_texts:
  assumes "\<And>w. english (f w) = english w"
      and "\<And>w. cantonese_jyutping (f w) = cantonese_jyutping w"
  shows "fuzzy_scan ns (map f d) = fuzzy_scan ns d"
  using assms by (induction d) (auto simp: part_match_def jyutpingParts_def)

lemma insort_key_map_texts:
  assumes "\<And>w. english (f w) = english w"
  shows "insort_key english (f x) (map f ys) = map f (insort_key english x ys)"
  using assms by (induction ys) auto

lemma index_order_map_texts:
  assumes "\<And>w. english (f w) = english w"
  shows "index_order (map f d) = map f (index_order d)"
  unfolding index_order_def
  using assms by (induction d) (simp_all add: insort_key_map_texts)

lemma findWordInDatabase_map_texts:
  assumes e: "\<And>w. english (f w) = english w"
      and c: "\<And>w. cantonese_jyutping (f w) = cantonese_jyutping w"
  shows "findWordInDatabase (map f d) q = findWordInDatabase d q"
proof -
  have 1: "find (exact_english q) (index_order (map f d))
             = map_option f (find (exact_english q) (index_order d))"
    unfolding index_order_map_texts [of f, OF e]
    by (rule find_map_texts) (simp add: exact_english_def e)
  have 2: "find (exact_cantonese q) (map f d) = map_option f (find (exact_cantonese q) d)"
    by (rule find_map_texts) (simp add: exact_cantonese_def c)
  have 3: "fuzzy_scan ns (map f d) = fuzzy_scan ns d" for ns
    by (rule fuzzy_scan_map_texts) (simp_all add: e c)
  show ?thesis
    unfolding findWordInDatabase_def by (simp add: 1 2 3 Let_def e split: option.splits)
qed

lemma run_update_Some:
  "run_update d today n k = Some d' \<Longrightarrow> d' = map (set_progress today n k) d"
  unfolding run_update_def by (auto split: if_splits)

lemma run_update_ok:
  "1 \<le> n \<Longrightarrow> run_update d today n k = Some (map (set_progress today n k) d)"
  unfolding run_update_def by (simp add: check_level_def)

lemma getWord_set_progress:
  "getWord d k = Some w \<Longrightarrow>
   getWord (map (set_progress today n k) d) k
     = Some (w\<lparr> last_practiced_date := today, proficiency_level := Some n \<rparr>)"
  unfolding getWord_def by (induction d) (auto simp: set_progress_def)

lemma getWord_set_progress_other:
  "k' \<noteq> k \<Longrightarrow> getWord (map (set_progress today n k) d) k' = getWord d k'"
  unfolding getWord_def by (induction d) (auto simp: set_progress_def)

lemma findWordInDatabase_set_progress:
  "findWordInDatabase (map (set_progress today n k) d) q = findWordInDatabase d q"
  by (rule findWordInDatabase_map_texts) (simp_all add: set_progress_def)


lemma process_words_append:
  "process_words today d (xs @ ys) =
     (case process_words today d xs of
        (d1, us1, fs1) \<Rightarrow>
          (case process_words today d1 ys of
             (d2, us2, fs2) \<Rightarrow> (d2, us1 @ us2, fs1 @ fs2)))"
  by (induction xs arbitrary: d) (auto split: prod.splits outcome.splits)

lemma findWordInDatabase_empty_query: "findWordInDatabase d [] = None"
  by (simp add: findWordInDatabase_def)

lemma process_entry_updates:
  assumes "searchTerm_of e = Some q" "findWordInDatabase d q = Some k" "k \<noteq> []"
      and "getWord d k = Some w"
      and "1 \<le> newProficiency_of (success e) (level_or_1 (proficiency_level w))"
  shows "process_entry today d e =
           (map (set_progress today
                   (newProficiency_of (success e) (level_or_1 (proficiency_level w))) k) d,
            Updated (to_out (w\<lparr> last_practiced_date := today,
                                proficiency_level :=
                                  Some (newProficiency_of (success e)
                                          (level_or_1 (proficiency_level w))) \<rparr>)))"
proof -
  let ?n = "newProficiency_of (success e) (level_or_1 (proficiency_level w))"
  have q: "q \<noteq> []" using assms(2) findWordInDatabase_empty_query by fastforce
  have n: "1 \<le> ?n" using assms(5) .
  have u: "run_update d today ?n k = Some (map (set_progress today ?n k) d)"
    using n by (rule run_update_ok)
  have g: "getWord (map (set_progress today ?n k) d) k
             = Some (w\<lparr> last_practiced_date := today, proficiency_level := Some ?n \<rparr>)"
    using assms(4) by (rule getWord_set_progress)
  show ?thesis
    unfolding process_entry_def by (simp add: assms(1-4) q u g Let_def)
qed

lemma process_entry_store:
  "fst (process_entry today d e) = d
   \<or> (\<exists>n k. fst (process_entry today d e) = map (set_progress today n k) d)"
  unfolding process_entry_def
  by (auto simp: Let_def split: option.splits if_splits dest: run_update_Some)

lemma findWordInDatabase_process_entry:
  "findWordInDatabase (fst (process_entry today d e)) q = findWordInDatabase d q"
  using process_entry_store [of today d e]
  by (auto simp: findWordInDatabase_set_progress)

lemma unresolved_process_entry:
  "unresolved (fst (process_entry today d e)) e' = unresolved d e'"
  by (simp add: unresolved_def findWordInDatabase_process_entry cong: option.case_cong)

lemma process_entry_unresolved:
  "unresolved d e \<Longrightarrow> process_entry today d e = (d, Failed (failure_of e))"
  unfolding process_entry_def unresolved_def failure_of_def
  by (auto simp: findWordInDatabase_empty_query split: option.splits)

lemma process_words_length:
  "process_words today d ws = (d', us, fs) \<Longrightarrow> length us + length fs = length ws"
proof (induction ws arbitrary: d d' us fs)
  case Nil
  then show ?case by simp
next
  case (Cons e es)
  obtain d1 out where s: "process_entry today d e = (d1, out)" by (cases "process_entry today d e")
  obtain d2 us2 fs2 where r: "process_words today d1 es = (d2, us2, fs2)"
    by (cases "process_words today d1 es") auto
  from Cons.IH [OF r] have "length us2 + length fs2 = length es" .
  with Cons.prems s r show ?case by (cases out) auto
qed

lemma process_words_failures:
  assumes "\<And>e. unresolved d e = unresolved d0 e"
  shows "\<forall>e\<in>set ws. unresolved d0 e \<longrightarrow> failure_of e \<in> set (snd (snd (process_words today d ws)))"
  using assms
proof (induction ws arbitrary: d)
  case Nil
  then show ?case by simp
next
  case (Cons e es)
  obtain d1 out where s: "process_entry today d e = (d1, out)" by (cases "process_entry today d e")
  have d1: "d1 = fst (process_entry today d e)" using s by simp
  have inv: "\<And>e'. unresolved d1 e' = unresolved d0 e'"
    unfolding d1 by (simp add: unresolved_process_entry Cons.prems)
  note ih = Cons.IH [OF inv]
  obtain d2 us2 fs2 where r: "process_words today d1 es = (d2, us2, fs2)"
    by (cases "process_words today d1 es") auto
  have tail: "\<forall>e'\<in>set es. unresolved d0 e' \<longrightarrow> failure_of e' \<in> set fs2"
    using ih r by simp
  have head: "unresolved d0 e \<Longrightarrow> out = Failed (failure_of e)"
    using process_entry_unresolved [of d e today] s Cons.prems by simp
  show ?case
    using s r tail head by (cases out) auto
qed

lemma process_words_filter:
  assumes "\<And>e. unresolved d e = unresolved d0 e"
  shows "(case process_words today d (filter (\<lambda>e. \<not> unresolved d0 e) ws) of
            (d'', us, fs) \<Rightarrow> (d'', us))
         = (case process_words today d ws of (d'', us, fs) \<Rightarrow> (d'', us))"
  using assms
proof (induction ws arbitrary: d)
  case Nil
  then show ?case by simp
next
  case (Cons e es)
  obtain d1 out where s: "process_entry today d e = (d1, out)" by (cases "process_entry today d e")
  have d1: "d1 = fst (process_entry today d e)" using s by simp
  have inv: "\<And>e'. unresolved d1 e' = unresolved d0 e'"
    unfolding d1 by (simp add: unresolved_process_entry Cons.prems)
  note ih = Cons.IH [OF inv]
  show ?case
  proof (cases "unresolved d0 e")
    case True
    then have "process_entry today d e = (d, Failed (failure_of e))"
      using process_entry_unresolved [of d e today] Cons.prems by simp
    then show ?thesis
      using True Cons.IH [OF Cons.prems] by (simp split: prod.splits)
  next
    case False
    then show ?thesis
      using s ih by (cases out) (auto split: prod.splits)
  qed
qed

lemma updateWordProgress_single_updated:
  "process_entry today d e = (d', Updated u) \<Longrightarrow>
   updateWordProgress today d [e]
     = (d', \<lparr> result_success = True, updatedWords = [u], failedWords = None \<rparr>)"
  by (simp add: updateWordProgress_def)

lemma level_ok_set_progress:
  "level_ok w \<Longrightarrow> 1 \<le> n \<Longrightarrow> level_ok (set_progress today n k w)"
  by (simp add: level_ok_def set_progress_def)

lemma set_progress_absent:
  "k \<notin> set (map english d) \<Longrightarrow> map (set_progress today n k) d = d"
  by (induction d) (auto simp: set_progress_def)

lemma run_update_levels:
  assumes "run_update d today n k = Some d'" "list_all level_ok d"
  shows "list_all level_ok d'"
proof (cases "k \<in> set (map english d)")
  case True
  with assms(1) have n: "1 \<le> n" and d': "d' = map (set_progress today n k) d"
    by (auto simp: run_update_def check_level_def split: if_splits)
  show ?thesis using assms(2) n unfolding d'
    by (induction d) (auto simp: level_ok_set_progress)
next
  case False
  with assms(1) have "d' = d"
    by (auto simp: run_update_def set_progress_absent split: if_splits)
  with assms(2) show ?thesis by simp
qed

lemma process_entry_levels:
  "list_all level_ok d \<Longrightarrow> list_all level_ok (fst (process_entry today d e))"
  unfolding process_entry_def
  by (auto simp: Let_def split: option.splits if_splits dest: run_update_levels)

lemma process_words_levels:
  "list_all level_ok d \<Longrightarrow> list_all level_ok (fst (process_words today d ws))"
proof (induction ws arbitrary: d)
  case Nil
  then show ?case by simp
next
  case (Cons e es)
  from Cons.prems have "list_all level_ok (fst (process_entry today d e))"
    by (rule process_entry_levels)
  from Cons.IH [OF this] show ?case
    by (auto split: prod.splits outcome.splits)
qed

lemma updateWordProgress_levels:
  "list_all level_ok d \<Longrightarrow> list_all level_ok (fst (updateWordProgress today d ws))"
  using process_words_levels [of d today ws]
  by (auto simp: updateWordProgress_def split: prod.splits)

lemma addNewWord_levels:
  "list_all level_ok d \<Longrightarrow> list_all level_ok (fst (addNewWord today d eng cj))"
  by (simp add: addNewWord_def level_ok_def)

lemma removeWord_levels:
  "list_all level_ok d \<Longrightarrow> list_all level_ok (fst (removeWord d eng))"
  by (auto simp: removeWord_def list_all_iff split: option.splits)

lemma reachable_funpow:
  "reachable d \<Longrightarrow> reachable (((\<lambda>x. fst (updateWordProgress today x ws)) ^^ n) d)"
  by (induction n) (auto intro: reachable_update)

lemma reachable_levels: "reachable d \<Longrightarrow> list_all level_ok d"
  by (induction rule: reachable.induct)
     (simp_all add: addNewWord_levels updateWordProgress_levels removeWord_levels)

subsection \<open>Adding a word\<close>

lemma addNewWord_fresh:
  "eng \<notin> set (map english d) \<Longrightarrow>
   addNewWord today d eng cj = (d @ [new_row today eng cj], Added (to_out (new_row today eng cj)))"
  by (simp add: addNewWord_def new_row_def to_out_def level_or_1_def to_number_small)

lemma addNewWord_present:
  "eng \<in> set (map english d) \<Longrightarrow> addNewWord today d eng cj = (d, AlreadyExists eng)"
  by (simp add: addNewWord_def)

lemma getWord_append:
  "getWord (d @ d') k = (case getWord d k of None \<Rightarrow> getWord d' k | Some w \<Rightarrow> Some w)"
  unfolding getWord_def by (induction d) auto

lemma getWord_fresh:
  "eng \<notin> set (map english d) \<Longrightarrow> getWord (d @ [new_row today eng cj]) eng = Some (new_row today eng cj)"
  using getWord_None_iff [of d eng]
  by (simp add: getWord_append) (simp add: getWord_def new_row_def)

lemma exact_english_cong:
  "sql_lower (sql_trim q) = sql_lower (sql_trim q') \<Longrightarrow> exact_english q = exact_english q'"
  by (simp add: exact_english_def fun_eq_iff)

subsection \<open>The random order\<close>

lemma mset_order_by_random: "mset (order_by_random rand d) = mset d"
proof -
  let ?ps = "zip (map rand [0..<length d]) d"
  have a: "mset (sort_key fst ?ps) = mset ?ps" by simp
  have b: "map snd ?ps = d" by (simp add: map_snd_zip)
  have "mset (map snd (sort_key fst ?ps)) = image_mset snd (mset (sort_key fst ?ps))"
    by simp
  also have "\<dots> = image_mset snd (mset ?ps)" by (simp only: a)
  also have "\<dots> = mset (map snd ?ps)" by (simp only: mset_map)
  also have "\<dots> = mset d" by (simp only: b)
  finally show ?thesis by (simp only: order_by_random_def)
qed

lemma length_order_by_random: "length (order_by_random rand d) = length d"
  using mset_order_by_random [of rand d] by (metis size_mset)

lemma mset_take_subset: "mset (take n xs) \<subseteq># mset xs"
  by (metis append_take_drop_id mset_append mset_subset_eq_add_left)

lemma english_to_out: "map out_english (map to_out ws) = map english ws"
  by (simp add: to_out_def)

subsection \<open>The matcher as three passes\<close>

lemma fuzzy_scan_find:
  "fuzzy_scan ns d = map_option english (find (fuzzy_match ns) d)"
  by (induction d) (auto simp: fuzzy_match_def normalized_match_def)

lemma findWordInDatabase_passes:
  assumes "normalizeWord q \<noteq> []"
  shows "findWordInDatabase d q =
           (case find (exact_english q) (index_order d) of
              Some w \<Rightarrow> Some (english w)
            | None \<Rightarrow>
               (case find (exact_cantonese q) d of
                  Some w \<Rightarrow> Some (english w)
                | None \<Rightarrow> map_option english (find (fuzzy_match (normalizeWord q)) d)))"
proof -
  have "q \<noteq> []" using assms by (auto simp: normalizeWord_def)
  then show ?thesis
    using assms
    by (simp add: findWordInDatabase_def Let_def fuzzy_scan_find split: option.splits)
qed

lemma find_first:
  "\<forall>v\<in>set pre. \<not> P v \<Longrightarrow> P w \<Longrightarrow> find P (pre @ w # post) = Some w"
  by (induction pre) auto

lemma findWordInDatabase_sound:
  assumes "findWordInDatabase d q = Some k"
  shows "\<exists>w\<in>set d. english w = k \<and> matches_query q w"
proof -
  have n: "normalizeWord q \<noteq> []"
    using assms by (auto simp: findWordInDatabase_def Let_def split: if_splits)
  from assms show ?thesis
    unfolding findWordInDatabase_passes [OF n] matches_query_def fuzzy_match_def
    by (auto split: option.splits dest!: find_Some_set)
qed

lemma findWordInDatabase_complete:
  assumes "normalizeWord q \<noteq> []" "w \<in> set d" "matches_query q w"
  shows "findWordInDatabase d q \<noteq> None"
proof
  assume none: "findWordInDatabase d q = None"
  then have "find (exact_english q) (index_order d) = None"
    "find (exact_cantonese q) d = None"
    "find (fuzzy_match (normalizeWord q)) d = None"
    unfolding findWordInDatabase_passes [OF assms(1)] by (auto split: option.splits)
  then have "\<not> exact_english q w" "\<not> exact_cantonese q w" "\<not> fuzzy_match (normalizeWord q) w"
    using assms(2) by (auto simp: find_None_set)
  with assms(3) show False by (auto simp: matches_query_def fuzzy_match_def)
qed

subsection \<open>Evaluations on the example stores\<close>

lemmas row_defs = cat_row_def dog_row_def cat_row2_def dog_row3_def

lemma searchTerm_of_english_entry:
  "q \<noteq> [] \<Longrightarrow> searchTerm_of (english_entry q ok) = Some q"
  by (simp add: searchTerm_of_def english_entry_def)

lemma three_entries_result:
  "updateWordProgress ''2025-02-02'' [cat_row, dog_row] three_entries =
     ([cat_row2, dog_row3],
      \<lparr> result_success = True,
        updatedWords = [to_out cat_row2, to_out dog_row3],
        failedWords = Some [\<lparr> failed_english = ''zebra'',
                              failed_reason = WordNotFound ''zebra'' \<rparr>] \<rparr>)"
proof -
  have s1: "searchTerm_of (english_entry ''cat'' True) = Some ''cat''"
    by (simp add: searchTerm_of_english_entry)
  have s2: "searchTerm_of (english_entry ''zebra'' True) = Some ''zebra''"
    by (simp add: searchTerm_of_english_entry)
  have s3: "searchTerm_of (english_entry ''Dog '' False) = Some ''Dog ''"
    by (simp add: searchTerm_of_english_entry)
  have f1: "findWordInDatabase [cat_row, dog_row] ''cat'' = Some ''cat''"
    by (simp add: row_defs matcher_defs string_defs)
  have f2: "findWordInDatabase [cat_row2, dog_row] ''zebra'' = None"
    by (simp add: row_defs matcher_defs string_defs)
  have f3: "findWordInDatabase [cat_row2, dog_row] ''Dog '' = Some ''dog''"
    by (simp add: row_defs matcher_defs string_defs)
  have g1: "getWord [cat_row, dog_row] ''cat'' = Some cat_row"
    by (simp add: getWord_def row_defs)
  have g3: "getWord [cat_row2, dog_row] ''dog'' = Some dog_row"
    by (simp add: getWord_def row_defs)
  have p1: "process_entry ''2025-02-02'' [cat_row, dog_row] (english_entry ''cat'' True)
              = ([cat_row2, dog_row], Updated (to_out cat_row2))"
    using process_entry_updates [OF s1 f1 _ g1, where today = "''2025-02-02''"]
    by (simp add: newProficiency_of_def level_or_1_def to_number_small english_entry_def set_progress_def
          row_defs)
  have p2: "process_entry ''2025-02-02'' [cat_row2, dog_row] (english_entry ''zebra'' True)
              = ([cat_row2, dog_row],
                 Failed \<lparr> failed_english = ''zebra'', failed_reason = WordNotFound ''zebra'' \<rparr>)"
    using process_entry_unresolved [of "[cat_row2, dog_row]" "english_entry ''zebra'' True"
        "''2025-02-02''"]
    by (simp add: unresolved_def failure_of_def s2 f2)
  have p3: "process_entry ''2025-02-02'' [cat_row2, dog_row] (english_entry ''Dog '' False)
              = ([cat_row2, dog_row3], Updated (to_out dog_row3))"
    using process_entry_updates [OF s3 f3 _ g3, where today = "''2025-02-02''"]
    by (simp add: newProficiency_of_def level_or_1_def to_number_small english_entry_def set_progress_def
          row_defs)
  show ?thesis
    by (simp add: updateWordProgress_def three_entries_def p1 p2 p3)
qed

lemma failure_on_level_one:
  assumes "d = [cat_row] \<or> d = [cat_row_floor]"
  shows "fst (updateWordProgress ''2025-02-02'' d [maau1_entry False]) = [cat_row_floor]"
proof -
  obtain w where d: "d = [w]" and w: "w = cat_row \<or> w = cat_row_floor"
    using assms by auto
  have s: "searchTerm_of (maau1_entry False) = Some ''maau1''"
    by (simp add: searchTerm_of_def maau1_entry_def)
  have f: "findWordInDatabase d ''maau1'' = Some ''cat''"
    using w unfolding d
    by (auto simp: cat_row_def cat_row_floor_def matcher_defs string_defs)
  have g: "getWord d ''cat'' = Some w"
    using w unfolding d by (auto simp: getWord_def cat_row_def cat_row_floor_def)
  have l: "1 \<le> newProficiency_of (success (maau1_entry False))
                 (level_or_1 (proficiency_level w))"
    by (simp add: newProficiency_of_def maau1_entry_def)
  have "process_entry ''2025-02-02'' d (maau1_entry False)
          = ([cat_row_floor], Updated (to_out cat_row_floor))"
    using process_entry_updates [OF s f _ g l, where today = "''2025-02-02''"] w
    unfolding d
    by (auto simp: newProficiency_of_def level_or_1_def to_number_small maau1_entry_def set_progress_def
          cat_row_def cat_row_floor_def)
  then show ?thesis by (simp add: updateWordProgress_single_updated)
qed

subsection \<open>The regular case of an update\<close>

text \<open>
  On a stored word whose key is not empty and whose level is below \<open>2 ^ 53\<close>, an entry
  that the matcher resolves to the word writes the level (one more after a success, one
  less but at least 1 after a failure) and the date, and touches no other word; a success
  followed by a failure, each with its own query text, gives the level back.
\<close>

lemma progress_update_regular_case:
  assumes pre: "process_words today d pre = (d1, us1, fs1)"
      and q: "searchTerm_of e = Some q"
      and k: "findWordInDatabase d1 q = Some k" "k \<noteq> []"
      and w: "getWord d1 k = Some w"
      and l: "level = level_or_1 (proficiency_level w)" "1 \<le> level" "level < 2 ^ 53"
      and w': "w' = w\<lparr> last_practiced_date := today,
                       proficiency_level :=
                         Some (if success e then level + 1 else max (level - 1) 1) \<rparr>"
  shows "\<exists>d2. process_words today d (pre @ [e]) = (d2, us1 @ [to_out w'], fs1)
              \<and> getWord d2 k = Some w'
              \<and> (\<forall>k'. k' \<noteq> k \<longrightarrow> getWord d2 k' = getWord d1 k')"
proof -
  let ?n = "newProficiency_of (success e) (level_or_1 (proficiency_level w))"
  let ?d2 = "map (set_progress today ?n k) d1"
  have n: "?n = (if success e then level + 1 else max (level - 1) 1)" and n1: "1 \<le> ?n"
    using newProficiency_small [of level "success e"] l by simp_all
  have step: "process_entry today d1 e = (?d2, Updated (to_out w'))"
    using process_entry_updates [OF q k w n1, of today] by (simp add: w' n)
  have "process_words today d (pre @ [e]) = (?d2, us1 @ [to_out w'], fs1)"
    by (simp add: process_words_append pre step)
  moreover have "getWord ?d2 k = Some w'"
    using getWord_set_progress [OF w, of today ?n] by (simp add: w' n)
  moreover have "\<forall>k'. k' \<noteq> k \<longrightarrow> getWord ?d2 k' = getWord d1 k'"
    by (simp add: getWord_set_progress_other)
  ultimately show ?thesis by blast
qed

lemma success_then_failure_regular_case:
  assumes k: "findWordInDatabase d q1 = Some k" "findWordInDatabase d q2 = Some k" "k \<noteq> []"
      and w: "getWord d k = Some w" "proficiency_level w = Some l" "1 \<le> l" "l < 2 ^ 53"
      and e1: "searchTerm_of e1 = Some q1" "success e1"
      and e2: "searchTerm_of e2 = Some q2" "\<not> success e2"
  shows "\<exists>d1 r1 d2 r2.
           updateWordProgress today d [e1] = (d1, r1) \<and> result_success r1
         \<and> updateWordProgress today d1 [e2] = (d2, r2) \<and> result_success r2
         \<and> getWord d1 k = Some (w\<lparr> last_practiced_date := today,
                                     proficiency_level := Some (l + 1) \<rparr>)
         \<and> getWord d2 k = Some (w\<lparr> last_practiced_date := today,
                                     proficiency_level := Some l \<rparr>)"
proof -
  let ?w1 = "w\<lparr> last_practiced_date := today, proficiency_level := Some (l + 1) \<rparr>"
  let ?w2 = "w\<lparr> last_practiced_date := today, proficiency_level := Some l \<rparr>"
  let ?d1 = "map (set_progress today (l + 1) k) d"
  let ?d2 = "map (set_progress today l k) ?d1"
  have lv: "level_or_1 (proficiency_level w) = l"
    using w by (simp add: level_or_1_def to_number_small)
  have n1: "newProficiency_of (success e1) (level_or_1 (proficiency_level w)) = l + 1"
    using newProficiency_small(1) [of l "success e1"] w(3,4) e1(2) by (simp add: lv)
  have up: "process_entry today d e1 = (?d1, Updated (to_out ?w1))"
    using process_entry_updates [OF e1(1) k(1) k(3) w(1), of today] w(3)
    by (simp add: n1)
  have k1: "findWordInDatabase ?d1 q2 = Some k"
    by (simp add: findWordInDatabase_set_progress k)
  have w1: "getWord ?d1 k = Some ?w1"
    using w(1) by (rule getWord_set_progress)
  have lv1: "level_or_1 (Some (l + 1)) = l + 1"
    using w(3,4) by (simp add: level_or_1_def to_number_small)
  have "to_number (l + 1 - 1) = l" using w(3,4) by (simp add: to_number_small)
  then have n2: "newProficiency_of (success e2) (level_or_1 (Some (l + 1))) = l"
    using w(3) e2(2) unfolding lv1 by (simp add: newProficiency_of_def)
  have down: "process_entry today ?d1 e2 = (?d2, Updated (to_out ?w2))"
    using process_entry_updates [OF e2(1) k1 k(3) w1, of today] w(3)
    by (simp add: n2)
  have w2: "getWord ?d2 k = Some ?w2"
    using getWord_set_progress [OF w1, of today l] by simp
  from updateWordProgress_single_updated [OF up] updateWordProgress_single_updated [OF down]
    w1 w2
  show ?thesis by auto
qed
section \<open>The claims\<close>

subsection \<open>C1: what a progress update writes\<close>

text \<open>
  Claim C1 says that every batch entry whose query text resolves to a stored word has the
  word's level and date written. The code breaks it on a stored word whose key is the
  empty string, a row that \<open>addNewWord\<close> stores when it is given the empty key: the
  matcher finds the word by its translation and returns its key, and the updater's test
  \<open>!actualEnglish\<close> takes the empty key for the \<open>null\<close> of "not found". The entry goes to
  \<open>failedWords\<close>, and neither level nor date is written. (Lemma
  \<open>progress_update_regular_case\<close> gives what is written for a word with a key that is
  not empty.)
\<close>

theorem empty_key_word_is_not_updated:
  "fst (addNewWord ''2025-01-01'' [] [] ''maau1'') = [nameless_row]
   \<and> findWordInDatabase [nameless_row] ''maau1'' = Some (english nameless_row)
   \<and> getWord [nameless_row] (english nameless_row) = Some nameless_row
   \<and> updateWordProgress ''2025-02-02'' [nameless_row] [maau1_entry True]
       = ([nameless_row],
          \<lparr> result_success = False, updatedWords = [],
            failedWords = Some [\<lparr> failed_english = ''maau1'',
                                  failed_reason = WordNotFound ''maau1'' \<rparr>] \<rparr>)"
proof -
  have a: "fst (addNewWord ''2025-01-01'' [] [] ''maau1'') = [nameless_row]"
    by (simp add: addNewWord_def nameless_row_def)
  have f: "findWordInDatabase [nameless_row] ''maau1'' = Some []"
    by (simp add: nameless_row_def matcher_defs string_defs)
  have g: "getWord [nameless_row] [] = Some nameless_row"
    by (simp add: getWord_def nameless_row_def)
  have e: "english nameless_row = []" by (simp add: nameless_row_def)
  have p: "process_entry ''2025-02-02'' [nameless_row] (maau1_entry True)
             = ([nameless_row], Failed \<lparr> failed_english = ''maau1'',
                                          failed_reason = WordNotFound ''maau1'' \<rparr>)"
    by (simp add: process_entry_def searchTerm_of_def maau1_entry_def f)
  show ?thesis by (simp add: a f g e updateWordProgress_def p)
qed

subsection \<open>C2: the proficiency level never falls below 1\<close>

text \<open>
  Claim C2. In every store the tools can reach from the empty table, every record's
  proficiency level is a number and at least 1: an insert writes 1, a progress update
  adds 1 or takes 1 off with the floor 1, a removal only deletes rows. In particular any
  number \<open>n\<close> of repetitions of the same progress update (such as a failure on one word)
  leaves every level at 1 or more.
\<close>

theorem proficiency_never_below_one:
  assumes "reachable d"
  shows "(\<forall>w\<in>set d. \<exists>l. proficiency_level w = Some l \<and> 1 \<le> l)
       \<and> (\<forall>n. \<forall>w\<in>set (((\<lambda>x. fst (updateWordProgress today x ws)) ^^ n) d).
             \<exists>l. proficiency_level w = Some l \<and> 1 \<le> l)"
proof -
  have *: "\<forall>w\<in>set x. \<exists>l. proficiency_level w = Some l \<and> 1 \<le> l" if "reachable x" for x
    using reachable_levels [OF that]
    by (auto simp: list_all_iff level_ok_def split: option.splits)
  show ?thesis using * [OF assms] * [OF reachable_funpow [OF assms]] by blast
qed

text \<open>Three failures in a row on the word just added: the level stays at 1.\<close>

theorem proficiency_never_below_one_witness:
  "list_all (\<lambda>w. \<exists>l. proficiency_level w = Some l \<and> 1 \<le> l)
     (((\<lambda>x. fst (updateWordProgress ''2025-02-02'' x [maau1_entry False])) ^^ 3)
        (fst (addNewWord ''2025-01-01'' [] ''cat'' ''maau1'')))
   \<and> ((\<lambda>x. fst (updateWordProgress ''2025-02-02'' x [maau1_entry False])) ^^ 3)
        (fst (addNewWord ''2025-01-01'' [] ''cat'' ''maau1'')) = [cat_row_floor]
   \<and> proficiency_level cat_row_floor = Some 1"
proof -
  have r: "reachable (fst (addNewWord ''2025-01-01'' [] ''cat'' ''maau1''))"
    by (intro reachable_add reachable_empty)
  have a: "fst (addNewWord ''2025-01-01'' [] ''cat'' ''maau1'') = [cat_row]"
    by (simp add: addNewWord_def cat_row_def)
  have e: "((\<lambda>x. fst (updateWordProgress ''2025-02-02'' x [maau1_entry False])) ^^ 3) [cat_row]
             = [cat_row_floor]"
    by (simp add: numeral_3_eq_3 failure_on_level_one)
  have p: "proficiency_level cat_row_floor = Some 1"
    by (simp add: cat_row_floor_def cat_row_def)
  from proficiency_never_below_one [OF r, of "''2025-02-02''" "[maau1_entry False]"]
  have "list_all (\<lambda>w. \<exists>l. proficiency_level w = Some l \<and> 1 \<le> l)
     (((\<lambda>x. fst (updateWordProgress ''2025-02-02'' x [maau1_entry False])) ^^ 3)
        (fst (addNewWord ''2025-01-01'' [] ''cat'' ''maau1'')))"
    by (simp add: list_all_iff)
  then show ?thesis using e p by (simp add: a)
qed

subsection \<open>C3: a failing entry does not stop the batch\<close>

text \<open>
  Claim C3. For every batch, the result's success flag says whether any word was updated;
  every entry ends in exactly one of the two lists, so none is skipped; every entry that
  cannot be resolved to a stored word is in the failed list with its reason; and the store
  and the list of updated words are those the batch gives without the unresolvable
  entries, so the entries behind a failure are processed as if it were not there.
\<close>

theorem batch_update_isolates_failures:
  assumes "updateWordProgress today d ws = (d', r)"
  shows "result_success r = (length (updatedWords r) > 0)
       \<and> length (updatedWords r) + length (failed_list r) = length ws
       \<and> (\<forall>e\<in>set ws. unresolved d e \<longrightarrow> failure_of e \<in> set (failed_list r))
       \<and> (case process_words today d (filter (\<lambda>e. \<not> unresolved d e) ws) of
             (d'', us, fs) \<Rightarrow> (d'', us)) = (d', updatedWords r)"
proof (cases "ws = []")
  case True
  with assms show ?thesis by (auto simp: updateWordProgress_def failed_list_def)
next
  case False
  obtain d2 us fs where p: "process_words today d ws = (d2, us, fs)"
    by (cases "process_words today d ws") auto
  from assms False p have r: "d' = d2"
      "r = \<lparr> result_success = (length us > 0), updatedWords = us,
             failedWords = (if length fs > 0 then Some fs else None) \<rparr>"
    by (auto simp: updateWordProgress_def)
  have fl: "failed_list r = fs" by (cases fs) (simp_all add: r failed_list_def)
  have ul: "updatedWords r = us" by (simp add: r)
  have 1: "result_success r = (length (updatedWords r) > 0)" by (simp add: r)
  have 2: "length (updatedWords r) + length (failed_list r) = length ws"
    using process_words_length [OF p] by (simp only: fl ul)
  have 3: "\<forall>e\<in>set ws. unresolved d e \<longrightarrow> failure_of e \<in> set (failed_list r)"
    using process_words_failures [of d d ws today] p by (simp add: fl)
  have 4: "(case process_words today d (filter (\<lambda>e. \<not> unresolved d e) ws) of
             (d'', us, fs) \<Rightarrow> (d'', us)) = (d', updatedWords r)"
    using process_words_filter [of d d today ws] p by (simp add: ul r(1))
  from 1 2 3 4 show ?thesis by blast
qed


text \<open>Three entries, the second unknown: two words updated, one failure recorded.\<close>

theorem batch_update_isolates_failures_witness:
  "result_success (snd (updateWordProgress ''2025-02-02'' [cat_row, dog_row] three_entries))
   \<and> length (updatedWords (snd (updateWordProgress ''2025-02-02'' [cat_row, dog_row] three_entries))) = 2
   \<and> failure_of (english_entry ''zebra'' True)
        \<in> set (failed_list (snd (updateWordProgress ''2025-02-02'' [cat_row, dog_row] three_entries)))"
proof -
  have u: "unresolved [cat_row, dog_row] (english_entry ''zebra'' True)"
    by (simp add: unresolved_def searchTerm_of_def english_entry_def cat_row_def dog_row_def
          matcher_defs string_defs)
  have m: "english_entry ''zebra'' True \<in> set three_entries"
    by (simp add: three_entries_def)
  note t = batch_update_isolates_failures [OF three_entries_result]
  from t have "result_success (snd (updateWordProgress ''2025-02-02'' [cat_row, dog_row] three_entries))
      = (length (updatedWords (snd (updateWordProgress ''2025-02-02'' [cat_row, dog_row] three_entries))) > 0)"
    by (simp add: three_entries_result)
  moreover from t u m have "failure_of (english_entry ''zebra'' True)
      \<in> set (failed_list (snd (updateWordProgress ''2025-02-02'' [cat_row, dog_row] three_entries)))"
    by (simp add: three_entries_result)
  ultimately show ?thesis by (simp add: three_entries_result)
qed

subsection \<open>C4: a translation with alternatives is found by each of them\<close>

text \<open>
  Claim C4, as amended, for the matcher of \<open>toolUtils.ts\<close>, which the batch progress
  update calls. Let the normalized query be non-empty and equal to the normalized
  translation of a stored record, or to one of the pieces the normalized translation splits
  into at its slashes. Then the matcher finds a word: it returns the key of a stored
  record that the query matches under one of the four rules, and it returns the key of the
  record at hand whenever every stored record the query matches has that key.
\<close>

theorem matcher_resolves_translation_and_parts:
  assumes w: "w \<in> set d"
      and n: "normalizeWord q \<noteq> []"
      and m: "normalizeWord q = normalizeWord (cantonese_jyutping w)
              \<or> normalizeWord q \<in> set (jyutpingParts w)"
  shows "(\<exists>w'\<in>set d. findWordInDatabase d q = Some (english w') \<and> matches_query q w')
       \<and> ((\<forall>w'\<in>set d. matches_query q w' \<longrightarrow> english w' = english w)
            \<longrightarrow> findWordInDatabase d q = Some (english w))"
proof -
  have mq: "matches_query q w"
    using m by (auto simp: matches_query_def normalized_match_def part_match_def)
  from findWordInDatabase_complete [OF n w mq]
  obtain k where k: "findWordInDatabase d q = Some k" by auto
  from findWordInDatabase_sound [OF k]
  obtain w' where w': "w' \<in> set d" "english w' = k" "matches_query q w'" by auto
  show ?thesis using k w' by auto
qed

text \<open>The spec's example: one piece of the translation, in another spelling, and the whole
  translation written without blanks around the slash.\<close>

theorem matcher_resolves_translation_and_parts_witness:
  "findWordInDatabase [cat_row, exercise_book_row] ''Zaap6  fo3 pou3 '' = Some ''exercise book''
   \<and> findWordInDatabase [cat_row, exercise_book_row] ''sik6 coeng2/zaap6 fo3 pou3''
       = Some ''exercise book''"
proof -
  let ?d = "[cat_row, exercise_book_row]"
  have w: "exercise_book_row \<in> set ?d" by simp
  have n1: "normalizeWord ''Zaap6  fo3 pou3 '' \<noteq> []" by (simp add: string_defs)
  have n2: "normalizeWord ''sik6 coeng2/zaap6 fo3 pou3'' \<noteq> []" by (simp add: string_defs)
  have m1: "normalizeWord ''Zaap6  fo3 pou3 '' = normalizeWord (cantonese_jyutping exercise_book_row)
            \<or> normalizeWord ''Zaap6  fo3 pou3 '' \<in> set (jyutpingParts exercise_book_row)"
    by (simp add: exercise_book_row_def jyutpingParts_def string_defs)
  have m2: "normalizeWord ''sik6 coeng2/zaap6 fo3 pou3''
              = normalizeWord (cantonese_jyutping exercise_book_row)
            \<or> normalizeWord ''sik6 coeng2/zaap6 fo3 pou3'' \<in> set (jyutpingParts exercise_book_row)"
    by (simp add: exercise_book_row_def jyutpingParts_def string_defs)
  have c1: "\<not> matches_query ''Zaap6  fo3 pou3 '' cat_row"
    by (simp add: matches_query_def cat_row_def exact_english_def exact_cantonese_def
          normalized_match_def part_match_def jyutpingParts_def string_defs)
  have c2: "\<not> matches_query ''sik6 coeng2/zaap6 fo3 pou3'' cat_row"
    by (simp add: matches_query_def cat_row_def exact_english_def exact_cantonese_def
          normalized_match_def part_match_def jyutpingParts_def string_defs)
  have e: "english exercise_book_row = ''exercise book''" by (simp add: exercise_book_row_def)
  from matcher_resolves_translation_and_parts [OF w n1 m1] c1
  have "findWordInDatabase ?d ''Zaap6  fo3 pou3 '' = Some ''exercise book''"
    by (simp add: e)
  moreover from matcher_resolves_translation_and_parts [OF w n2 m2] c2
  have "findWordInDatabase ?d ''sik6 coeng2/zaap6 fo3 pou3'' = Some ''exercise book''"
    by (simp add: e)
  ultimately show ?thesis by simp
qed

text \<open>
  Claim C4 as stated fails twice. Where two records share a piece, the matcher returns the
  key of the one it meets first, here book and not homework. And \<open>removeWord\<close> calls the
  copy of the matcher in its own file, which compares whole texts only: a single piece of
  the translation is not found, and nothing is removed.
\<close>

theorem matcher_parts_counterexample:
  "normalizeWord ''syu1'' \<in> set (jyutpingParts homework_row)
   \<and> findWordInDatabase [book_row, homework_row] ''syu1'' = Some ''book''
   \<and> normalizeWord ''zaap6 fo3 pou3'' \<in> set (jyutpingParts exercise_book_row)
   \<and> findWordInDatabase_old [exercise_book_row] ''zaap6 fo3 pou3'' = None
   \<and> removeWord [exercise_book_row] ''zaap6 fo3 pou3'' = ([exercise_book_row], RemoveNotFound)"
proof -
  have 1: "normalizeWord ''syu1'' \<in> set (jyutpingParts homework_row)"
    by (simp add: homework_row_def jyutpingParts_def string_defs)
  have 2: "findWordInDatabase [book_row, homework_row] ''syu1'' = Some ''book''"
    by (simp add: book_row_def homework_row_def matcher_defs string_defs)
  have 3: "normalizeWord ''zaap6 fo3 pou3'' \<in> set (jyutpingParts exercise_book_row)"
    by (simp add: exercise_book_row_def jyutpingParts_def string_defs)
  have 4: "findWordInDatabase_old [exercise_book_row] ''zaap6 fo3 pou3'' = None"
    by (simp add: exercise_book_row_def matcher_defs string_defs)
  have 5: "removeWord [exercise_book_row] ''zaap6 fo3 pou3'' = ([exercise_book_row], RemoveNotFound)"
    by (simp add: removeWord_def 4)
  from 1 2 3 4 5 show ?thesis by blast
qed

subsection \<open>C5: the order of the matcher's rules\<close>

text \<open>
  Claim C5, as amended. The exact test on the key (rule 1) is run over the whole store
  first, the rows being met in the byte order of their keys, which is the order of the
  primary key's index; then the exact test on the translation (rule 2), the rows being
  met in table order. When neither finds a row, the normalized comparison (rule 3) and the
  comparison with the pieces of the translation (rule 4) are made together, row after row
  in table order: the matcher returns the key of the first row that matches under rule 3
  or under rule 4.
\<close>

theorem matcher_rule_order:
  assumes n: "normalizeWord q \<noteq> []"
      and d: "d = pre @ w # post"
      and w: "normalized_match (normalizeWord q) w \<or> part_match (normalizeWord q) w"
      and pre: "\<forall>v\<in>set pre. \<not> normalized_match (normalizeWord q) v
                             \<and> \<not> part_match (normalizeWord q) v"
  shows "findWordInDatabase d q =
           (case find (exact_english q) (index_order d) of
              Some w1 \<Rightarrow> Some (english w1)
            | None \<Rightarrow>
               (case find (exact_cantonese q) d of
                  Some w2 \<Rightarrow> Some (english w2)
                | None \<Rightarrow> Some (english w)))"
proof -
  have "\<forall>v\<in>set pre. \<not> fuzzy_match (normalizeWord q) v"
    using pre by (simp add: fuzzy_match_def)
  moreover have "fuzzy_match (normalizeWord q) w"
    using w by (simp add: fuzzy_match_def)
  ultimately have "find (fuzzy_match (normalizeWord q)) (pre @ w # post) = Some w"
    by (rule find_first)
  then have f: "find (fuzzy_match (normalizeWord q)) d = Some w"
    by (simp only: d)
  show ?thesis
    unfolding findWordInDatabase_passes [OF n] by (simp only: f option.map)
qed

text \<open>
  With the row matching under rule 3 first in the table and no exact match, its key is
  returned. And with the keys dog and Dog stored in this order, the query dog is answered
  by rule 1 with Dog, the key that comes first byte by byte.
\<close>

theorem matcher_rule_order_witness:
  "findWordInDatabase [meal_row, eat_row] ''sik6  faan6'' = Some ''have a meal''
   \<and> findWordInDatabase [dog_row, capital_dog_row] ''dog'' = Some ''Dog''"
proof -
  let ?q = "''sik6  faan6''"
  have n: "normalizeWord ?q \<noteq> []" by (simp add: string_defs)
  have 1: "find (exact_english ?q) (index_order [meal_row, eat_row]) = None"
    by (simp add: find_index_order exact_english_def meal_row_def eat_row_def string_defs)
  have 2: "find (exact_cantonese ?q) [meal_row, eat_row] = None"
    by (simp add: exact_cantonese_def meal_row_def eat_row_def string_defs)
  have 3: "[meal_row, eat_row] = [] @ meal_row # [eat_row]" by simp
  have 4: "normalized_match (normalizeWord ?q) meal_row
           \<or> part_match (normalizeWord ?q) meal_row"
    by (simp add: normalized_match_def meal_row_def string_defs)
  have 5: "\<forall>v\<in>set []. \<not> normalized_match (normalizeWord q) v
                          \<and> \<not> part_match (normalizeWord q) v" for q
    by simp
  have e: "english meal_row = ''have a meal''" by (simp add: meal_row_def)
  from matcher_rule_order [OF n 3 4 5]
  have a: "findWordInDatabase [meal_row, eat_row] ?q = Some ''have a meal''"
    by (simp only: 1 2 e option.case)
  have dn: "normalizeWord ''dog'' \<noteq> []" by (simp add: string_defs)
  have d3: "[dog_row, capital_dog_row] = [] @ dog_row # [capital_dog_row]" by simp
  have d4: "normalized_match (normalizeWord ''dog'') dog_row
            \<or> part_match (normalizeWord ''dog'') dog_row"
    by (simp add: normalized_match_def dog_row_def string_defs)
  have d1: "find (exact_english ''dog'') (index_order [dog_row, capital_dog_row])
              = Some capital_dog_row"
    by (simp add: find_index_order exact_english_def dog_row_def capital_dog_row_def
          string_defs)
  have de: "english capital_dog_row = ''Dog''" by (simp add: capital_dog_row_def)
  from matcher_rule_order [OF dn d3 d4 5]
  have b: "findWordInDatabase [dog_row, capital_dog_row] ''dog'' = Some ''Dog''"
    by (simp only: d1 de option.case)
  from a b show ?thesis by (rule conjI)
qed

text \<open>
  Claim C5 as stated fails when the row that matches only under rule 4 comes first: the
  query with two blanks matches the translation of "have a meal" under rule 3 and a piece
  of the translation of "eat" under rule 4 only, and the answer follows the order of the
  two rows.
\<close>

theorem matcher_rule_order_counterexample:
  "normalized_match (normalizeWord ''sik6  faan6'') meal_row
   \<and> \<not> exact_english ''sik6  faan6'' eat_row
   \<and> \<not> exact_cantonese ''sik6  faan6'' eat_row
   \<and> \<not> normalized_match (normalizeWord ''sik6  faan6'') eat_row
   \<and> part_match (normalizeWord ''sik6  faan6'') eat_row
   \<and> findWordInDatabase [eat_row, meal_row] ''sik6  faan6'' = Some ''eat''
   \<and> findWordInDatabase [meal_row, eat_row] ''sik6  faan6'' = Some ''have a meal''"
proof -
  have 1: "normalized_match (normalizeWord ''sik6  faan6'') meal_row"
    by (simp add: normalized_match_def meal_row_def string_defs)
  have 2: "\<not> normalized_match (normalizeWord ''sik6  faan6'') eat_row"
    by (simp add: normalized_match_def eat_row_def string_defs)
  have 3: "part_match (normalizeWord ''sik6  faan6'') eat_row"
    by (simp add: part_match_def jyutpingParts_def eat_row_def string_defs)
  have 4: "findWordInDatabase [eat_row, meal_row] ''sik6  faan6'' = Some ''eat''"
    by (simp add: meal_row_def eat_row_def matcher_defs string_defs)
  have 5: "findWordInDatabase [meal_row, eat_row] ''sik6  faan6'' = Some ''have a meal''"
    by (simp add: meal_row_def eat_row_def matcher_defs string_defs)
  have 6: "\<not> exact_english ''sik6  faan6'' eat_row"
    by (simp add: exact_english_def eat_row_def string_defs)
  have 7: "\<not> exact_cantonese ''sik6  faan6'' eat_row"
    by (simp add: exact_cantonese_def eat_row_def string_defs)
  from 1 2 3 4 5 6 7 show ?thesis by blast
qed

subsection \<open>C6: inserting a key twice\<close>

text \<open>
  Claim C6. After any \<open>addNewWord\<close> of the key \<open>k\<close> the store has a record \<open>w\<close> under \<open>k\<close>
  (the one just created, with level 1 and today's date, when the key was new). A second
  \<open>addNewWord\<close> of the same key, with whatever translation and date, returns the result
  "already exists", a value and not an exception, and leaves the store as it was: the
  record under \<open>k\<close> is still \<open>w\<close>.
\<close>

theorem second_insert_is_duplicate:
  assumes "addNewWord t1 d k c1 = (d1, r1)"
  shows "\<exists>w. getWord d1 k = Some w
           \<and> addNewWord t2 d1 k c2 = (d1, AlreadyExists k)
           \<and> getWord (fst (addNewWord t2 d1 k c2)) k = Some w
           \<and> (k \<notin> set (map english d) \<longrightarrow> r1 = Added (to_out w) \<and> w = new_row t1 k c1)"
proof (cases "k \<in> set (map english d)")
  case True
  with assms have d1: "d1 = d" by (simp add: addNewWord_present)
  from True obtain w where w: "getWord d k = Some w"
    using getWord_None_iff [of d k] by (cases "getWord d k") auto
  show ?thesis using True w by (simp add: d1 addNewWord_present)
next
  case False
  with assms have d1: "d1 = d @ [new_row t1 k c1]" and r1: "r1 = Added (to_out (new_row t1 k c1))"
    by (simp_all add: addNewWord_fresh)
  have w: "getWord d1 k = Some (new_row t1 k c1)"
    unfolding d1 using False by (rule getWord_fresh)
  have "k \<in> set (map english d1)" by (simp add: d1 new_row_def)
  then have dup: "addNewWord t2 d1 k c2 = (d1, AlreadyExists k)"
    by (rule addNewWord_present)
  show ?thesis using w dup r1 by simp
qed

text \<open>Adding cat twice to the empty store.\<close>

theorem second_insert_is_duplicate_witness:
  "\<exists>w. getWord (fst (addNewWord ''2025-01-01'' [] ''cat'' ''maau1'')) ''cat'' = Some w
      \<and> addNewWord ''2025-02-02'' (fst (addNewWord ''2025-01-01'' [] ''cat'' ''maau1''))
           ''cat'' ''gau2''
         = (fst (addNewWord ''2025-01-01'' [] ''cat'' ''maau1''), AlreadyExists ''cat'')
      \<and> w = new_row ''2025-01-01'' ''cat'' ''maau1''"
proof -
  have h: "addNewWord ''2025-01-01'' [] ''cat'' ''maau1''
             = (fst (addNewWord ''2025-01-01'' [] ''cat'' ''maau1''),
                snd (addNewWord ''2025-01-01'' [] ''cat'' ''maau1''))"
    by simp
  from second_insert_is_duplicate [OF h, of "''2025-02-02''" "''gau2''"]
  show ?thesis by auto
qed

subsection \<open>C7: empty fields\<close>

text \<open>
  Claim C7 says that a word with an empty key or an empty translation is rejected before
  the store is touched, so that no record with an empty translation is ever created. The
  code breaks it: \<open>addNewWord\<close> makes no test on its two texts before the INSERT. With the
  empty translation it succeeds and the store holds a record whose translation is empty;
  with the empty key it stores the record \<open>nameless_row\<close>.
\<close>

theorem addNewWord_accepts_empty_fields:
  "addNewWord ''2025-02-02'' [] ''cat'' []
     = ([\<lparr> english = ''cat'', cantonese_jyutping = [],
           last_practiced_date = ''2025-02-02'', proficiency_level = Some 1 \<rparr>],
        Added \<lparr> out_english = ''cat'', out_cantonese_jyutping = [],
                out_last_practiced_date = ''2025-02-02'', out_proficiency_level = 1 \<rparr>)
   \<and> fst (addNewWord ''2025-01-01'' [] [] ''maau1'') = [nameless_row]"
  by (simp add: addNewWord_def nameless_row_def)

subsection \<open>C8: a success followed by a failure\<close>

text \<open>
  Claim C8 says that, for any stored word of level at least 1, a successful update
  followed by a failed one returns the level to what it was, both calls setting the date
  to today. The code breaks it on the stored word with the empty key, the row of C1: both
  calls report the word as not found, although the matcher resolves their query text to
  it, and the date of the word stays what it was, not today's. (Lemma
  \<open>success_then_failure_regular_case\<close> gives the round trip for a word with a key that
  is not empty and a level below \<open>2 ^ 53\<close>.)
\<close>

theorem empty_key_word_keeps_its_date:
  "findWordInDatabase [nameless_row] ''maau1'' = Some (english nameless_row)
   \<and> proficiency_level nameless_row = Some 1
   \<and> updateWordProgress ''2025-02-02'' [nameless_row] [maau1_entry True]
       = ([nameless_row],
          \<lparr> result_success = False, updatedWords = [],
            failedWords = Some [\<lparr> failed_english = ''maau1'',
                                  failed_reason = WordNotFound ''maau1'' \<rparr>] \<rparr>)
   \<and> updateWordProgress ''2025-02-02'' [nameless_row] [maau1_entry False]
       = ([nameless_row],
          \<lparr> result_success = False, updatedWords = [],
            failedWords = Some [\<lparr> failed_english = ''maau1'',
                                  failed_reason = WordNotFound ''maau1'' \<rparr>] \<rparr>)
   \<and> last_practiced_date nameless_row \<noteq> ''2025-02-02''"
proof -
  have f: "findWordInDatabase [nameless_row] ''maau1'' = Some []"
    by (simp add: nameless_row_def matcher_defs string_defs)
  have e: "english nameless_row = []" "proficiency_level nameless_row = Some 1"
    "last_practiced_date nameless_row \<noteq> ''2025-02-02''"
    by (simp_all add: nameless_row_def)
  have p: "process_entry ''2025-02-02'' [nameless_row] (maau1_entry ok)
             = ([nameless_row], Failed \<lparr> failed_english = ''maau1'',
                                          failed_reason = WordNotFound ''maau1'' \<rparr>)" for ok
    by (simp add: process_entry_def searchTerm_of_def maau1_entry_def f)
  show ?thesis by (simp add: f e updateWordProgress_def p)
qed

text \<open>
  The level itself does not come back either once it has left the range in which numbers
  are exact: from \<open>2 ^ 53\<close> a success leaves the level at \<open>2 ^ 53\<close>, and the failure that
  follows takes it to \<open>2 ^ 53 - 1\<close>.
\<close>

lemma level_beyond_exact_numbers:
  "newProficiency_of True (level_or_1 (Some 9007199254740992)) = 9007199254740992
   \<and> newProficiency_of False (level_or_1 (Some 9007199254740992)) = 9007199254740991"
proof -
  have 1: "to_number 9007199254740992 = 9007199254740992"
    by (simp add: to_number_small)
  have 2: "to_number 9007199254740993 = 9007199254740992"
    by code_simp
  have 3: "to_number 9007199254740991 = 9007199254740991"
    by (simp add: to_number_small)
  show ?thesis by (simp add: newProficiency_of_def level_or_1_def 1 2 3)
qed

subsection \<open>C9: the random sample\<close>

text \<open>
  Claim C9. Whatever numbers \<open>RANDOM()\<close> gives, the sample has \<open>min 50 n\<close> records for a
  store of \<open>n\<close>, so at most 50; \<open>count\<close> is their number; the records are drawn from the
  store without replacement (as a multiset the sample is contained in the store), so no
  key appears twice, keys being unique; a store of at most 50 records is returned whole;
  and the empty store gives the empty sample. The function is total: there is no error.
\<close>

theorem random_sample_without_replacement:
  "length (words (getRandomWords rand d)) = min 50 (length d)
   \<and> count (getRandomWords rand d) = length (words (getRandomWords rand d))
   \<and> mset (words (getRandomWords rand d)) \<subseteq># mset (map to_out d)
   \<and> (distinct (map english d)
        \<longrightarrow> distinct (map out_english (words (getRandomWords rand d))))
   \<and> (length d \<le> 50 \<longrightarrow> mset (words (getRandomWords rand d)) = mset (map to_out d))
   \<and> (d = [] \<longrightarrow> getRandomWords rand d = \<lparr> words = [], count = 0 \<rparr>)"
proof -
  let ?o = "order_by_random rand d"
  have w: "words (getRandomWords rand d) = map to_out (take 50 ?o)"
    and c: "count (getRandomWords rand d) = length (take 50 ?o)"
    by (simp_all add: getRandomWords_def Let_def)
  have 1: "length (words (getRandomWords rand d)) = min 50 (length d)"
    by (simp add: w length_order_by_random min.commute)
  have 2: "count (getRandomWords rand d) = length (words (getRandomWords rand d))"
    by (simp add: w c)
  have "mset (take 50 ?o) \<subseteq># mset d"
    using mset_take_subset [of 50 ?o] by (simp add: mset_order_by_random)
  then have 3: "mset (words (getRandomWords rand d)) \<subseteq># mset (map to_out d)"
    unfolding w by (simp add: image_mset_subseteq_mono)
  have 4: "distinct (map out_english (words (getRandomWords rand d)))"
    if dist: "distinct (map english d)"
  proof -
    have "mset (map english ?o) = mset (map english d)"
      by (simp add: mset_order_by_random)
    then have "distinct (map english ?o)"
      using dist by (metis mset_eq_imp_distinct_iff)
    then have "distinct (take 50 (map english ?o))" by (rule distinct_take)
    then have "distinct (map english (take 50 ?o))" by (simp only: take_map)
    then show ?thesis by (simp only: w english_to_out)
  qed
  have 5: "mset (words (getRandomWords rand d)) = mset (map to_out d)" if "length d \<le> 50"
  proof -
    have "take 50 ?o = ?o" using that by (simp add: length_order_by_random)
    then show ?thesis by (simp add: w mset_order_by_random)
  qed
  have 6: "getRandomWords rand d = \<lparr> words = [], count = 0 \<rparr>" if "d = []"
    using that by (simp add: getRandomWords_def order_by_random_def)
  from 1 2 3 4 5 6 show ?thesis by blast
qed

text \<open>Three rows with the numbers 5, -3 and 4: the sample is the store in another order.\<close>

theorem random_sample_without_replacement_witness:
  "words (getRandomWords some_numbers three_rows)
     = [to_out dog_row, to_out book_row, to_out cat_row]
   \<and> distinct (map out_english (words (getRandomWords some_numbers three_rows)))
   \<and> mset (words (getRandomWords some_numbers three_rows)) = mset (map to_out three_rows)"
proof -
  have d: "distinct (map english three_rows)"
    by (simp add: three_rows_def cat_row_def dog_row_def book_row_def)
  have l: "length three_rows \<le> 50" by (simp add: three_rows_def)
  have e: "words (getRandomWords some_numbers three_rows)
             = [to_out dog_row, to_out book_row, to_out cat_row]"
    by (simp add: getRandomWords_def order_by_random_def three_rows_def some_numbers_def
          upt_rec [of 0] upt_rec [of 1] upt_rec [of 2] numeral_3_eq_3)
  from random_sample_without_replacement [of some_numbers three_rows] d l e
  show ?thesis by simp
qed

subsection \<open>C10: keys are unique byte by byte\<close>

text \<open>
  Claim C10. Let the store hold a record \<open>w\<close>, and let \<open>eng\<close> be a key that no record has
  but that equals the key of \<open>w\<close> once both are trimmed of blanks and put in lower case.
  Then \<open>addNewWord\<close> succeeds, the store holds both records afterwards, and the new one
  is found under its exact key, although the exact query of the matcher makes no
  difference between the two keys: each of the two rows satisfies it for either key.
\<close>

theorem key_uniqueness_is_byte_exact:
  assumes w: "w \<in> set d"
      and fresh: "eng \<notin> set (map english d)"
      and same: "sql_lower (sql_trim eng) = sql_lower (sql_trim (english w))"
  shows "eng \<noteq> english w
       \<and> addNewWord today d eng cj
           = (d @ [new_row today eng cj], Added (to_out (new_row today eng cj)))
       \<and> w \<in> set (fst (addNewWord today d eng cj))
       \<and> new_row today eng cj \<in> set (fst (addNewWord today d eng cj))
       \<and> getWord (fst (addNewWord today d eng cj)) eng = Some (new_row today eng cj)
       \<and> exact_english eng = exact_english (english w)
       \<and> exact_english eng w \<and> exact_english eng (new_row today eng cj)"
proof -
  have ne: "eng \<noteq> english w" using w fresh by auto
  have add: "addNewWord today d eng cj
               = (d @ [new_row today eng cj], Added (to_out (new_row today eng cj)))"
    using fresh by (rule addNewWord_fresh)
  have g: "getWord (d @ [new_row today eng cj]) eng = Some (new_row today eng cj)"
    using fresh by (rule getWord_fresh)
  have c: "exact_english eng = exact_english (english w)"
    using same by (rule exact_english_cong)
  have m: "exact_english eng w" "exact_english eng (new_row today eng cj)"
    using same by (simp_all add: exact_english_def new_row_def)
  show ?thesis using ne w g c m by (simp add: add)
qed

text \<open>The key " Cat" beside the key "cat".\<close>

theorem key_uniqueness_is_byte_exact_witness:
  "addNewWord ''2025-02-02'' [cat_row] '' Cat'' ''maau1''
     = ([cat_row] @ [new_row ''2025-02-02'' '' Cat'' ''maau1''],
        Added (to_out (new_row ''2025-02-02'' '' Cat'' ''maau1'')))
   \<and> exact_english '' Cat'' cat_row"
proof -
  have h1: "cat_row \<in> set [cat_row]" by simp
  have h2: "'' Cat'' \<notin> set (map english [cat_row])" by (simp add: cat_row_def)
  have h3: "sql_lower (sql_trim '' Cat'') = sql_lower (sql_trim (english cat_row))"
    by (simp add: cat_row_def string_defs)
  from key_uniqueness_is_byte_exact [OF h1 h2 h3, of "''2025-02-02''" "''maau1''"]
  show ?thesis by blast
qed

end
